theory Spec2Isabelle
  imports Main
begin

section \<open>Canonical repository record (type \<open>Repo\<close> of routes/onboarding.ts)\<close>

text \<open>
  JavaScript numbers that hold identifiers and counts are modelled as \<open>int\<close>; an optional
  field (\<open>f?: T\<close>, or \<open>T | null\<close>) is an \<open>option\<close>. Field names are those of the source;
  where two object types of the source share a field name (\<open>name\<close>, \<open>description\<close>, \<open>url\<close>,
  \<open>owner\<close>, \<open>permissions\<close>, ...) the later one carries a prefix, and so do \<open>id\<close>, \<open>type\<close>
  and \<open>notes\<close>, which are names of HOL or of the proof language.
\<close>

datatype OwnerId = NumberId int | StringId string

record Owner =
  owner_id :: OwnerId
  owner_type :: string
  owner_name :: string
  owner_avatar_url :: string
  owner_url :: string

record Permissions =
  admin :: "bool option"
  maintain :: "bool option"
  push :: "bool option"
  triage :: "bool option"
  pull :: "bool option"

record Repo =
  name :: string
  full_name :: string
  githubRepoId :: int
  description :: "string option"
  url :: string
  owner :: Owner
  permissions :: "Permissions option"

section \<open>Raw records of the three GitHub sources\<close>

text \<open>
  \<open>PullRequestsRes['search']['edges'][number]\<close>: an edge holds a node, which holds the
  repository of the pull request.
\<close>

record PrOwner =
  pr_owner_id :: string
  typename :: string
  avatarUrl :: string
  pr_login :: string
  resourcePath :: string

record PrRepository =
  pr_name :: string
  nameWithOwner :: string
  viewerPermission :: string
  databaseId :: int
  pr_description :: string
  pr_url :: string
  isFork :: bool
  stargazerCount :: int
  pr_owner :: PrOwner

record PrNode =
  number :: int
  title :: string
  repository :: PrRepository

record PrEdge =
  node :: PrNode

text \<open>
  An element of the data of \<open>repos.listForAuthenticatedUser\<close> and of \<open>repos.listForOrg\<close>
  (the two element types of the REST client agree on every field the code reads).
\<close>

record RestOwner =
  rest_owner_id :: int
  rest_owner_type :: string
  login :: string
  avatar_url :: string
  owner_html_url :: string

record RestRepo =
  rest_id :: int
  rest_name :: string
  rest_full_name :: string
  rest_description :: "string option"
  html_url :: string
  rest_owner :: RestOwner
  rest_permissions :: "Permissions option"
  fork :: bool
  stargazers_count :: "int option"

section \<open>Source adapters\<close>

definition getMappedOrgRepo :: "RestRepo \<Rightarrow> Repo" where
  "getMappedOrgRepo repo =
     \<lparr> name = rest_name repo,
       full_name = rest_full_name repo,
       githubRepoId = rest_id repo,
       description = rest_description repo,
       url = html_url repo,
       owner = \<lparr> owner_id = NumberId (rest_owner_id (rest_owner repo)),
                 owner_type = rest_owner_type (rest_owner repo),
                 owner_name = login (rest_owner repo),
                 owner_avatar_url = avatar_url (rest_owner repo),
                 owner_url = owner_html_url (rest_owner repo) \<rparr>,
       permissions = rest_permissions repo \<rparr>"

definition getMappedRepo :: "RestRepo \<Rightarrow> Repo" where
  "getMappedRepo repo =
     \<lparr> name = rest_name repo,
       full_name = rest_full_name repo,
       githubRepoId = rest_id repo,
       description = rest_description repo,
       url = html_url repo,
       owner = \<lparr> owner_id = NumberId (rest_owner_id (rest_owner repo)),
                 owner_type = rest_owner_type (rest_owner repo),
                 owner_name = login (rest_owner repo),
                 owner_avatar_url = avatar_url (rest_owner repo),
                 owner_url = owner_html_url (rest_owner repo) \<rparr>,
       permissions = rest_permissions repo \<rparr>"

text \<open>\<open>xs.includes(v)\<close> on an array of string literals.\<close>

definition array_includes :: "string list \<Rightarrow> string \<Rightarrow> bool" where
  "array_includes xs v = (v \<in> set xs)"

definition getMappedPrRepo :: "PrEdge \<Rightarrow> Repo" where
  "getMappedPrRepo pr =
     \<lparr> name = pr_name (repository (node pr)),
       full_name = nameWithOwner (repository (node pr)),
       githubRepoId = databaseId (repository (node pr)),
       description = Some (pr_description (repository (node pr))),
       url = pr_url (repository (node pr)),
       owner = \<lparr> owner_id = StringId (pr_owner_id (pr_owner (repository (node pr)))),
                 owner_type = typename (pr_owner (repository (node pr))),
                 owner_name = pr_login (pr_owner (repository (node pr))),
                 owner_avatar_url = avatarUrl (pr_owner (repository (node pr))),
                 owner_url = resourcePath (pr_owner (repository (node pr))) \<rparr>,
       permissions = Some
         \<lparr> admin = Some (array_includes [''ADMIN''] (viewerPermission (repository (node pr)))),
           maintain = Some (array_includes [''MAINTAIN'', ''ADMIN'']
                              (viewerPermission (repository (node pr)))),
           push = Some (array_includes [''WRITE'', ''MAINTAIN'', ''ADMIN'']
                          (viewerPermission (repository (node pr)))),
           triage = Some (array_includes [''TRIAGE'', ''WRITE'', ''MAINTAIN'', ''ADMIN'']
                            (viewerPermission (repository (node pr)))),
           pull = Some (array_includes [''READ'', ''WRITE'', ''MAINTAIN'', ''ADMIN'']
                          (viewerPermission (repository (node pr)))) \<rparr> \<rparr>"

text \<open>A pull-request edge whose repository has the given permission level.\<close>

definition prEdgeWith :: "string \<Rightarrow> int \<Rightarrow> bool \<Rightarrow> int \<Rightarrow> string \<Rightarrow> PrEdge" where
  "prEdgeWith fullName ident forked stars level =
     \<lparr> node = \<lparr> number = 1, title = ''fix'',
         repository = \<lparr> pr_name = fullName, nameWithOwner = fullName,
           viewerPermission = level, databaseId = ident, pr_description = [],
           pr_url = [], isFork = forked, stargazerCount = stars,
           pr_owner = \<lparr> pr_owner_id = ''MDQ6'', typename = ''User'', avatarUrl = [],
                        pr_login = ''octo'', resourcePath = ''/octo'' \<rparr> \<rparr> \<rparr> \<rparr>"

section \<open>Repository aggregation (GET /github/repos)\<close>

text \<open>
  The two sets that the filter callbacks mutate, \<open>foundRepoIds\<close> and \<open>rejectedRepoIds\<close>,
  are threaded through the callbacks as a state.
\<close>

record DedupSets =
  foundRepoIds :: "int set"
  rejectedRepoIds :: "int set"

text \<open>
  \<open>xs.filter(cb)\<close> for a callback that reads and writes the two sets: the callback runs on
  the elements from left to right, each run starting from the sets the previous one left.
\<close>

fun filter_st :: "('a \<Rightarrow> DedupSets \<Rightarrow> bool \<times> DedupSets) \<Rightarrow> 'a list \<Rightarrow> DedupSets
    \<Rightarrow> 'a list \<times> DedupSets" where
  "filter_st cb [] s = ([], s)"
| "filter_st cb (x # xs) s =
     (case cb x s of (keep, s1) \<Rightarrow>
        (case filter_st cb xs s1 of (ys, s2) \<Rightarrow> (if keep then x # ys else ys, s2)))"

text \<open>The callback of \<open>publicPrs.search.edges.filter\<close>.\<close>

definition prFilter :: "PrEdge \<Rightarrow> DedupSets \<Rightarrow> bool \<times> DedupSets" where
  "prFilter repo s =
     (if isFork (repository (node repo))
      then (False, s\<lparr>rejectedRepoIds :=
                        insert (databaseId (repository (node repo))) (rejectedRepoIds s)\<rparr>)
      else (let isFound = databaseId (repository (node repo)) \<in> foundRepoIds s;
                s1 = s\<lparr>foundRepoIds :=
                         insert (databaseId (repository (node repo))) (foundRepoIds s)\<rparr>
            in (\<not> isFound, s1)))"

text \<open>
  JavaScript truthiness of an optional boolean, \<open>a || b\<close> on such values, and the optional
  chain \<open>repo.permissions?.f\<close>.
\<close>

definition truthy :: "bool option \<Rightarrow> bool" where
  "truthy v = (v = Some True)"

definition js_or :: "bool option \<Rightarrow> bool option \<Rightarrow> bool option" where
  "js_or a b = (if truthy a then a else b)"

definition opt_chain :: "Permissions option \<Rightarrow> (Permissions \<Rightarrow> bool option) \<Rightarrow> bool option" where
  "opt_chain p f = (case p of None \<Rightarrow> None | Some q \<Rightarrow> f q)"

definition hasPermission :: "RestRepo \<Rightarrow> bool option" where
  "hasPermission repo =
     js_or (js_or (opt_chain (rest_permissions repo) admin)
                  (opt_chain (rest_permissions repo) maintain))
           (opt_chain (rest_permissions repo) push)"

text \<open>\<open>!repo.stargazers_count || repo.stargazers_count < 2\<close>\<close>

definition tooFewStars :: "RestRepo \<Rightarrow> bool" where
  "tooFewStars repo =
     (case stargazers_count repo of None \<Rightarrow> True | Some n \<Rightarrow> n = 0 \<or> n < 2)"

text \<open>The callback of the filter over the joined organization listings.\<close>

definition orgFilter :: "RestRepo \<Rightarrow> DedupSets \<Rightarrow> bool \<times> DedupSets" where
  "orgFilter repo s =
     (let isFound = rest_id repo \<in> foundRepoIds s;
          s1 = s\<lparr>foundRepoIds := insert (rest_id repo) (foundRepoIds s)\<rparr>
      in if isFound then (False, s1)
         else if fork repo
           then (False, s1\<lparr>rejectedRepoIds := insert (rest_id repo) (rejectedRepoIds s1)\<rparr>)
         else if tooFewStars repo
           then (False, s1\<lparr>rejectedRepoIds := insert (rest_id repo) (rejectedRepoIds s1)\<rparr>)
         else (truthy (hasPermission repo), s1))"

text \<open>The callback of the filter over the personal listing \<open>repos.data\<close>.\<close>

definition repoFilter :: "RestRepo \<Rightarrow> DedupSets \<Rightarrow> bool \<times> DedupSets" where
  "repoFilter repo s =
     (let isFound = rest_id repo \<in> foundRepoIds s;
          s1 = s\<lparr>foundRepoIds := insert (rest_id repo) (foundRepoIds s)\<rparr>
      in if isFound then (False, s1)
         else if fork repo
           then (False, s1\<lparr>rejectedRepoIds := insert (rest_id repo) (rejectedRepoIds s1)\<rparr>)
         else if tooFewStars repo
           then (False, s1\<lparr>rejectedRepoIds := insert (rest_id repo) (rejectedRepoIds s1)\<rparr>)
         else (truthy (hasPermission repo), s1))"

text \<open>
  The body of the \<open>try\<close> block once the three fetches have returned: the PR filter runs first,
  then the filter over the organization listings (joined by
  \<open>reduce((acc, repos) => [...acc, ...repos], [])\<close>), then the filter over the personal
  listing. The three filtered lists are kept apart, with the sets as the callbacks left them.
\<close>

record Aggregation =
  uniquePrRepos :: "PrEdge list"
  keptOrgRepos :: "RestRepo list"
  keptRepos :: "RestRepo list"
  finalSets :: DedupSets

definition aggregate :: "PrEdge list \<Rightarrow> RestRepo list \<Rightarrow> RestRepo list list \<Rightarrow> Aggregation" where
  "aggregate edges reposData orgsWithRepos =
     (let s0 = \<lparr>foundRepoIds = {}, rejectedRepoIds = {}\<rparr>;
          (prs, s1) = filter_st prFilter edges s0;
          (orgs, s2) = filter_st orgFilter (foldl (\<lambda>acc repos. acc @ repos) [] orgsWithRepos) s1;
          (pers, s3) = filter_st repoFilter reposData s2
      in \<lparr>uniquePrRepos = prs, keptOrgRepos = orgs, keptRepos = pers, finalSets = s3\<rparr>)"

definition mappedPrRepos :: "Aggregation \<Rightarrow> Repo list" where
  "mappedPrRepos a = map getMappedPrRepo (uniquePrRepos a)"

definition mappedOrgRepos :: "Aggregation \<Rightarrow> Repo list" where
  "mappedOrgRepos a = map getMappedOrgRepo (keptOrgRepos a)"

definition mappedRepos :: "Aggregation \<Rightarrow> Repo list" where
  "mappedRepos a = map getMappedRepo (keptRepos a)"

text \<open>\<open>[...mappedRepos, ...mappedOrgRepos, ...mappedPrRepos]\<close>\<close>

definition allRepos :: "Aggregation \<Rightarrow> Repo list" where
  "allRepos a = mappedRepos a @ mappedOrgRepos a @ mappedPrRepos a"

text \<open>
  The route handler, from the \<open>try\<close> block on (the read of the authenticated user stands
  before it). Each of the three upstream reads either returns its data or throws; a throw
  anywhere in the \<open>try\<close> block is answered with status 400 and no list.
\<close>

datatype jsError = TypeError | SyntaxError | ServiceError

datatype ReposResponse = Status200 "Repo list" | Status400 string

definition githubRepos :: "jsError + PrEdge list \<Rightarrow> jsError + RestRepo list
    \<Rightarrow> jsError + RestRepo list list \<Rightarrow> ReposResponse" where
  "githubRepos publicPrs repos orgsWithRepos =
     (case publicPrs of
        Inl err \<Rightarrow> Status400 ''Failed to fetch repos for GitHub user''
      | Inr edges \<Rightarrow>
          (case repos of
             Inl err \<Rightarrow> Status400 ''Failed to fetch repos for GitHub user''
           | Inr reposData \<Rightarrow>
               (case orgsWithRepos of
                  Inl err \<Rightarrow> Status400 ''Failed to fetch repos for GitHub user''
                | Inr orgsData \<Rightarrow> Status200 (allRepos (aggregate edges reposData orgsData)))))"

text \<open>A listed repository with the given identity, flags, star count and permissions.\<close>

definition restRepoWith :: "string \<Rightarrow> int \<Rightarrow> bool \<Rightarrow> int option \<Rightarrow> Permissions option \<Rightarrow> RestRepo" where
  "restRepoWith fullName ident forked stars perms =
     \<lparr> rest_id = ident, rest_name = fullName, rest_full_name = fullName,
       rest_description = None, html_url = [],
       rest_owner = \<lparr> rest_owner_id = 1, rest_owner_type = ''User'', login = ''octo'',
                      avatar_url = [], owner_html_url = [] \<rparr>,
       rest_permissions = perms, fork = forked, stargazers_count = stars \<rparr>"

definition adminPerms :: Permissions where
  "adminPerms = \<lparr> admin = Some True, maintain = Some True, push = Some True,
                   triage = Some True, pull = Some True \<rparr>"

definition pullPerms :: Permissions where
  "pullPerms = \<lparr> admin = Some False, maintain = Some False, push = Some False,
                  triage = Some False, pull = Some True \<rparr>"

section \<open>Repo-name list of the confirmation email (\<open>formatRepos\<close>)\<close>

text \<open>
  \<open>s.split(sep)\<close> for a separator of one character: the pieces between the separators; a
  string without the separator, the empty string included, gives one piece.
\<close>

fun split_on :: "char \<Rightarrow> string \<Rightarrow> string list" where
  "split_on sep [] = [[]]"
| "split_on sep (c # cs) =
     (if c = sep then [] # split_on sep cs
      else (case split_on sep cs of [] \<Rightarrow> [[c]] | w # ws \<Rightarrow> (c # w) # ws))"

text \<open>
  The text that the template \<open>${repo.full_name.split('/')[1]}\<close> renders: the second piece, and
  \<open>undefined\<close> when \<open>full_name\<close> has no slash.
\<close>

definition secondSegment :: "Repo \<Rightarrow> string" where
  "secondSegment repo =
     (case split_on (CHR ''/'') (full_name repo) of
        a # b # rest \<Rightarrow> b
      | _ \<Rightarrow> ''undefined'')"

text \<open>Decimal rendering of a non-negative integer, as a template renders a number.\<close>

definition digitChar :: "nat \<Rightarrow> char" where
  "digitChar d = ''0123456789'' ! d"

fun numberToString :: "nat \<Rightarrow> string" where
  "numberToString n =
     (if n < 10 then [digitChar n] else numberToString (n div 10) @ [digitChar (n mod 10)])"

declare numberToString.simps [simp del]

text \<open>
  The \<open>for\<close> loop of \<open>formatRepos\<close>, from index \<open>i\<close> with the text built so far. The third
  branch ends the loop (\<open>break\<close>); it is reached only with \<open>5 \<le> i\<close> and \<open>i + 1 < length repos\<close>,
  so the subtraction does not go below zero.
\<close>

function formatLoop :: "Repo list \<Rightarrow> nat \<Rightarrow> string \<Rightarrow> string" where
  "formatLoop repos i response =
     (if i < length repos then
        (if i + 1 = length repos
           then formatLoop repos (i + 1) (response @ '', and '' @ secondSegment (repos ! i))
         else if i < 5
           then formatLoop repos (i + 1) (response @ '', '' @ secondSegment (repos ! i))
         else response @ '', and '' @ numberToString (length repos - 5) @ '' more'')
      else response)"
  by pat_completeness auto
termination
  by (relation "measure (\<lambda>(repos, i, response). length repos - i)") auto

declare formatLoop.simps [simp del]

text \<open>
  \<open>formatRepos\<close>: reading \<open>repos[0].full_name\<close> of an empty array throws a TypeError, since
  \<open>repos[0]\<close> is undefined there.
\<close>

definition formatRepos :: "Repo list \<Rightarrow> jsError + string" where
  "formatRepos repos =
     (case repos of
        [] \<Rightarrow> Inl TypeError
      | first # rest \<Rightarrow> Inr (formatLoop repos 1 (secondSegment first)))"

text \<open>
  The words of the specification for the list: names joined by a comma and a space.
\<close>

fun commaJoined :: "string list \<Rightarrow> string" where
  "commaJoined [] = []"
| "commaJoined [x] = x"
| "commaJoined (x # y # ys) = x @ '', '' @ commaJoined (y # ys)"

text \<open>A selected repository with the given full name.\<close>

definition repoNamed :: "string \<Rightarrow> Repo" where
  "repoNamed fullName =
     \<lparr> name = fullName, full_name = fullName, githubRepoId = 1, description = None, url = [],
       owner = \<lparr> owner_id = NumberId 1, owner_type = ''User'', owner_name = ''o'',
                 owner_avatar_url = [], owner_url = [] \<rparr>,
       permissions = Some \<lparr> admin = Some True, maintain = Some True, push = Some True,
                            triage = Some True, pull = Some True \<rparr> \<rparr>"

section \<open>Intake form submission (POST /intake-form)\<close>

text \<open>
  The form fields of the request body. \<open>repos\<close> is the JSON text of the selected
  repositories; the optional fields are those the code reads with \<open>??\<close> or \<open>Boolean\<close>.
\<close>

type_synonym Image = string

record IntakeForm =
  form_name :: "string option"
  email :: string
  form_notes :: "string option"
  githubHandle :: string
  shouldGitPOAPDesign :: "string option"
  isOneGitPOAPPerRepo :: "string option"
  repos :: string

text \<open>A request: the body, \<open>req.files\<close>, and the clock reading taken on entry.\<close>

record IntakeRequest =
  body :: IntakeForm
  files :: "Image list option"
  unixTime :: nat

text \<open>The item written by \<open>createIntakeFormDocForDynamo\<close>, with the \<open>images\<close> attribute that the later update sets.\<close>

record ItemRepo =
  item_full_name :: string
  item_githubRepoId :: int
  item_admin :: "bool option"
  item_maintain :: bool
  item_push :: "bool option"
  item_triage :: bool
  item_pull :: "bool option"

record IntakeItem =
  key :: string
  timestamp :: nat
  item_name :: string
  item_email :: string
  item_notes :: string
  item_githubHandle :: string
  item_shouldGitPOAPDesign :: bool
  item_isOneGitPOAPPerRepo :: bool
  item_repos :: "ItemRepo list"
  isComplete :: bool
  images :: "string list option"

text \<open>The two messages. The text body of the internal message is held as the values interpolated into it.\<close>

record TemplateModel =
  queue_number :: "nat option"
  model_name :: "string option"
  model_email :: string
  model_githubHandle :: string
  model_shouldGitPOAPDesign :: string
  model_isOneGitPOAPPerRepo :: string
  model_notes :: "string option"
  model_repos :: string

record InternalBody =
  text_queue_number :: "nat option"
  text_name :: "string option"
  text_email :: string
  text_notes :: "string option"
  text_githubHandle :: string
  text_shouldGitPOAPDesign :: "string option"
  text_isOneGitPOAPPerRepo :: "string option"
  text_repos :: "string list"
  text_images :: "string list"

datatype Email =
    EmailWithTemplate string string TemplateModel
  | PlainEmail string string InternalBody

text \<open>
  What the handler takes from outside routes/onboarding.ts, as parameters: \<open>JSON.parse\<close> on
  the \<open>repos\<close> text (its value typed as the code types it, \<open>Repo[]\<close>), the three schemas of
  schemas/onboarding (\<open>safeParse\<close> answering with the issues when it fails), which calls of the
  record store and of the object storage throw, the URL of an object, and the bucket name.
\<close>

record Collaborators =
  parseRepos :: "string \<Rightarrow> jsError + Repo list"
  formIssues :: "IntakeForm \<Rightarrow> string list option"
  reposIssues :: "Repo list \<Rightarrow> string list option"
  filesIssues :: "Image list option \<Rightarrow> string list option"
  putItemFails :: "IntakeItem \<Rightarrow> bool"
  uploadFails :: "Image \<Rightarrow> string \<Rightarrow> string \<Rightarrow> bool"
  getS3URL :: "string \<Rightarrow> string \<Rightarrow> string"
  updateItemFails :: "string \<Rightarrow> nat \<Rightarrow> string list \<Rightarrow> bool"
  scanFails :: bool
  intakeFormBucket :: string

text \<open>
  The outside world the handler acts on: the intake table, the objects put into the bucket
  (oldest first), the messages handed to the mail service, and the calls made to the record
  store and the object storage, oldest first (a call that throws is listed too).
\<close>

datatype Call =
    PutItem IntakeItem
  | Upload string
  | UpdateItem string nat "string list"
  | Scan

record World =
  table :: "IntakeItem list"
  bucket :: "(string \<times> Image) list"
  outbox :: "Email list"
  calls :: "Call list"

text \<open>
  Modelled from the spec: the record store (the DynamoDB client is not under src/), with
  \<open>put(table, item)\<close> replacing the item of the same compound key, \<open>update(table, key, patch)\<close>
  setting \<open>images\<close> on the item of that key, and \<open>countWhere(table, predicate)\<close> counting the
  incomplete items. The handler updates only the key it has just put, so the table holds
  it; on a key the table does not hold the update leaves the table as it is.
\<close>

fun putItem :: "IntakeItem \<Rightarrow> IntakeItem list \<Rightarrow> IntakeItem list" where
  "putItem item [] = [item]"
| "putItem item (x # xs) =
     (if key x = key item \<and> timestamp x = timestamp item then item # xs
      else x # putItem item xs)"

fun setImages :: "string \<Rightarrow> nat \<Rightarrow> string list \<Rightarrow> IntakeItem list \<Rightarrow> IntakeItem list" where
  "setImages k t urls [] = []"
| "setImages k t urls (x # xs) =
     (if key x = k \<and> timestamp x = t then x\<lparr>images := Some urls\<rparr> # xs
      else x # setImages k t urls xs)"

definition countIncomplete :: "IntakeItem list \<Rightarrow> nat" where
  "countIncomplete items = length (filter (\<lambda>item. \<not> isComplete item) items)"

text \<open>\<open>Boolean(v)\<close> and \<open>v ?? ''\<close> on an optional string.\<close>

definition js_Boolean :: "string option \<Rightarrow> bool" where
  "js_Boolean v = (case v of None \<Rightarrow> False | Some t \<Rightarrow> t \<noteq> [])"

definition orEmpty :: "string option \<Rightarrow> string" where
  "orEmpty v = (case v of None \<Rightarrow> [] | Some t \<Rightarrow> t)"

text \<open>
  The \<open>map\<close> inside \<open>createIntakeFormDocForDynamo\<close>: reading \<open>repo.permissions.admin\<close> of a
  repository without permissions throws a TypeError.
\<close>

fun itemRepos :: "Repo list \<Rightarrow> jsError + ItemRepo list" where
  "itemRepos [] = Inr []"
| "itemRepos (repo # rest) =
     (case permissions repo of
        None \<Rightarrow> Inl TypeError
      | Some perms \<Rightarrow>
          (case itemRepos rest of
             Inl err \<Rightarrow> Inl err
           | Inr items \<Rightarrow>
               Inr (\<lparr> item_full_name = full_name repo,
                      item_githubRepoId = githubRepoId repo,
                      item_admin = admin perms,
                      item_maintain = (case maintain perms of None \<Rightarrow> False | Some b \<Rightarrow> b),
                      item_push = push perms,
                      item_triage = (case triage perms of None \<Rightarrow> False | Some b \<Rightarrow> b),
                      item_pull = pull perms \<rparr> # items)))"

definition createIntakeFormDocForDynamo ::
    "Collaborators \<Rightarrow> IntakeForm \<Rightarrow> nat \<Rightarrow> jsError + IntakeItem" where
  "createIntakeFormDocForDynamo c formData ts =
     (case parseRepos c (repos formData) of
        Inl err \<Rightarrow> Inl err
      | Inr parsed \<Rightarrow>
          (case itemRepos parsed of
             Inl err \<Rightarrow> Inl err
           | Inr items \<Rightarrow>
               Inr \<lparr> key = email formData @ ''-'' @ githubHandle formData,
                     timestamp = ts,
                     item_name = orEmpty (form_name formData),
                     item_email = email formData,
                     item_notes = orEmpty (form_notes formData),
                     item_githubHandle = githubHandle formData,
                     item_shouldGitPOAPDesign = js_Boolean (shouldGitPOAPDesign formData),
                     item_isOneGitPOAPPerRepo = js_Boolean (isOneGitPOAPPerRepo formData),
                     item_repos = items,
                     isComplete = False,
                     images = None \<rparr>))"

text \<open>
  \<open>sendConfirmationEmail\<close>: the template model is built first, so a throw of \<open>JSON.parse\<close> or of
  \<open>formatRepos\<close> leaves the mail service uncalled; otherwise the message is handed over.
\<close>

definition sendConfirmationEmail ::
    "Collaborators \<Rightarrow> IntakeForm \<Rightarrow> nat option \<Rightarrow> jsError + Email" where
  "sendConfirmationEmail c formData queueNumber =
     (case parseRepos c (repos formData) of
        Inl err \<Rightarrow> Inl err
      | Inr parsed \<Rightarrow>
          (case formatRepos parsed of
             Inl err \<Rightarrow> Inl err
           | Inr names \<Rightarrow>
               Inr (EmailWithTemplate (email formData) ''welcome-1''
                 \<lparr> queue_number = queueNumber,
                   model_name = form_name formData,
                   model_email = email formData,
                   model_githubHandle = githubHandle formData,
                   model_shouldGitPOAPDesign =
                     (if shouldGitPOAPDesign formData = Some ''true'' then ''GitPOAP'' else ''You''),
                   model_isOneGitPOAPPerRepo =
                     (if isOneGitPOAPPerRepo formData = Some ''true''
                      then ''One Per Repo'' else ''One For All''),
                   model_notes = form_notes formData,
                   model_repos = names \<rparr>)))"

definition sendInternalConfirmationEmail ::
    "Collaborators \<Rightarrow> IntakeForm \<Rightarrow> nat option \<Rightarrow> string list \<Rightarrow> jsError + Email" where
  "sendInternalConfirmationEmail c formData queueNumber urls =
     (case parseRepos c (repos formData) of
        Inl err \<Rightarrow> Inl err
      | Inr parsed \<Rightarrow>
          Inr (PlainEmail ''team@gitpoap.io''
            (''New intake form submission from '' @ githubHandle formData @ '' / ''
               @ email formData @ '' '')
            \<lparr> text_queue_number = queueNumber,
              text_name = form_name formData,
              text_email = email formData,
              text_notes = form_notes formData,
              text_githubHandle = githubHandle formData,
              text_shouldGitPOAPDesign = shouldGitPOAPDesign formData,
              text_isOneGitPOAPPerRepo = isOneGitPOAPPerRepo formData,
              text_repos = map full_name parsed,
              text_images = urls \<rparr>))"

text \<open>
  The answers of the handler: status 400 with the issues of a schema, status 400 with a
  message, status 200 with the form, the queue number and a message; or no answer, when an
  exception leaves the handler (the first \<open>JSON.parse\<close> stands outside every \<open>try\<close>).
\<close>

datatype IntakeResponse =
    Issues400 "string list"
  | Msg400 string
  | Success200 IntakeForm "nat option" string
  | Uncaught jsError

text \<open>\<open>/* Push results to Dynamo DB */\<close>: the first \<open>try\<close> block; the flag tells whether it ran through.\<close>

definition persistRecord :: "Collaborators \<Rightarrow> IntakeRequest \<Rightarrow> World \<Rightarrow> bool \<times> World" where
  "persistRecord c req w =
     (case createIntakeFormDocForDynamo c (body req) (unixTime req) of
        Inl err \<Rightarrow> (False, w)
      | Inr item \<Rightarrow>
          (let w1 = w\<lparr>calls := calls w @ [PutItem item]\<rparr>
           in if putItemFails c item then (False, w1)
              else (True, w1\<lparr>table := putItem item (table w1)\<rparr>)))"

text \<open>The object key of the image at an index: \<open>${unixTime}-${githubHandle}-${email}-${index}\<close>.\<close>

definition imageKey :: "IntakeRequest \<Rightarrow> nat \<Rightarrow> string" where
  "imageKey req index =
     numberToString (unixTime req) @ ''-'' @ githubHandle (body req) @ ''-''
       @ email (body req) @ ''-'' @ numberToString index"

text \<open>
  The loop over \<open>images.entries()\<close>, from the given index with the URLs pushed so far: the
  first upload that throws ends the loop and the request (\<open>None\<close>).
\<close>

fun uploadImages :: "Collaborators \<Rightarrow> IntakeRequest \<Rightarrow> nat \<Rightarrow> Image list \<Rightarrow> string list
    \<Rightarrow> World \<Rightarrow> string list option \<times> World" where
  "uploadImages c req index [] urls w = (Some urls, w)"
| "uploadImages c req index (file # rest) urls w =
     (let k = imageKey req index;
          w1 = w\<lparr>calls := calls w @ [Upload k]\<rparr>
      in if uploadFails c file (intakeFormBucket c) k then (None, w1)
         else uploadImages c req (index + 1) rest
                (urls @ [getS3URL c (intakeFormBucket c) k])
                (w1\<lparr>bucket := bucket w1 @ [(k, file)]\<rparr>))"

text \<open>
  \<open>/* Push images to S3 */\<close>: with a non-empty array of files, the uploads and then the update
  of the record; the answer is the message of the 400 response, or the URLs.
\<close>

definition pushImages :: "Collaborators \<Rightarrow> IntakeRequest \<Rightarrow> World \<Rightarrow> (string + string list) \<times> World" where
  "pushImages c req w =
     (case files req of
        Some (file # rest) \<Rightarrow>
          (case uploadImages c req 0 (file # rest) [] w of
             (None, w1) \<Rightarrow> (Inl ''Failed to submit intake form assets to S3'', w1)
           | (Some urls, w1) \<Rightarrow>
               (let k = email (body req) @ ''-'' @ githubHandle (body req);
                    w2 = w1\<lparr>calls := calls w1 @ [UpdateItem k (unixTime req) urls]\<rparr>
                in if updateItemFails c k (unixTime req) urls
                   then (Inl ''Failed to submit file URLs to DynamoDB'', w2)
                   else (Inr urls, w2\<lparr>table := setImages k (unixTime req) urls (table w2)\<rparr>)))
      | _ \<Rightarrow> (Inr [], w))"

text \<open>
  The last \<open>try\<close> block: the count of the incomplete items (a scan that answers gives the
  count), then the two messages. Whatever throws inside it is caught and logged, and ends
  the block; \<open>tableCount\<close> keeps the value it had at that point.
\<close>

definition countAndNotify :: "Collaborators \<Rightarrow> IntakeForm \<Rightarrow> string list \<Rightarrow> World
    \<Rightarrow> nat option \<times> World" where
  "countAndNotify c formData urls w =
     (let w1 = w\<lparr>calls := calls w @ [Scan]\<rparr>
      in if scanFails c then (None, w1)
         else (let tableCount = Some (countIncomplete (table w1))
               in case sendConfirmationEmail c formData tableCount of
                    Inl err \<Rightarrow> (tableCount, w1)
                  | Inr mail \<Rightarrow>
                      (let w2 = w1\<lparr>outbox := outbox w1 @ [mail]\<rparr>
                       in case sendInternalConfirmationEmail c formData tableCount urls of
                            Inl err \<Rightarrow> (tableCount, w2)
                          | Inr note \<Rightarrow> (tableCount, w2\<lparr>outbox := outbox w2 @ [note]\<rparr>))))"

text \<open>The handler of \<open>POST /intake-form\<close>.\<close>

definition intakeForm :: "Collaborators \<Rightarrow> IntakeRequest \<Rightarrow> World \<Rightarrow> IntakeResponse \<times> World" where
  "intakeForm c req w =
     (case formIssues c (body req) of
        Some issues \<Rightarrow> (Issues400 issues, w)
      | None \<Rightarrow>
     (case parseRepos c (repos (body req)) of
        Inl err \<Rightarrow> (Uncaught err, w)
      | Inr parsed \<Rightarrow>
     (case reposIssues c parsed of
        Some issues \<Rightarrow> (Issues400 issues, w)
      | None \<Rightarrow>
     (case filesIssues c (files req) of
        Some issues \<Rightarrow> (Issues400 issues, w)
      | None \<Rightarrow>
     (case persistRecord c req w of
        (False, w1) \<Rightarrow> (Msg400 ''Failed to submit intake form'', w1)
      | (True, w1) \<Rightarrow>
     (case pushImages c req w1 of
        (Inl msg, w2) \<Rightarrow> (Msg400 msg, w2)
      | (Inr urls, w2) \<Rightarrow>
     (case countAndNotify c (body req) urls w2 of
        (tableCount, w3) \<Rightarrow>
          (Success200 (body req) tableCount ''Successfully submitted intake form'', w3))))))))"

abbreviation prId :: "PrEdge \<Rightarrow> int" where
  "prId e \<equiv> databaseId (repository (node e))"

abbreviation noneSeen :: DedupSets where
  "noneSeen \<equiv> \<lparr>foundRepoIds = {}, rejectedRepoIds = {}\<rparr>"

abbreviation afterPr :: "PrEdge list \<Rightarrow> DedupSets" where
  "afterPr edges \<equiv> snd (filter_st prFilter edges noneSeen)"

section \<open>Example inputs\<close>

definition exPr :: PrEdge where
  "exPr = prEdgeWith ''octo/tool'' 7 False 0 ''READ''"

definition exPrFork :: PrEdge where
  "exPrFork = prEdgeWith ''octo/copy'' 9 True 50 ''ADMIN''"

definition exPersonal :: RestRepo where
  "exPersonal = restRepoWith ''octo/app'' 42 False (Some 10) (Some adminPerms)"

definition exOrg :: RestRepo where
  "exOrg = (restRepoWith ''octo/app'' 42 False (Some 10) (Some adminPerms))
             \<lparr>rest_description := Some ''listed by the organization''\<rparr>"

definition exOrgFork :: RestRepo where
  "exOrgFork = restRepoWith ''octo/app'' 42 True (Some 10) (Some adminPerms)"

definition sixRepos :: "Repo list" where
  "sixRepos = map repoNamed [''o/a'', ''o/b'', ''o/c'', ''o/d'', ''o/e'', ''o/f'']"

definition exForm :: IntakeForm where
  "exForm = \<lparr> form_name = Some ''Octo'', email = ''o@x.io'', form_notes = None,
              githubHandle = ''octo'', shouldGitPOAPDesign = Some ''true'',
              isOneGitPOAPPerRepo = Some ''false'', repos = ''[tool]'' \<rparr>"

definition exCollaborators :: Collaborators where
  "exCollaborators =
     \<lparr> parseRepos = (\<lambda>txt. if txt = ''[]'' then Inr [] else Inr [repoNamed ''octo/tool'']),
       formIssues = (\<lambda>form. None),
       reposIssues = (\<lambda>parsed. None),
       filesIssues = (\<lambda>fs. None),
       putItemFails = (\<lambda>item. False),
       uploadFails = (\<lambda>img b k. img = ''broken''),
       getS3URL = (\<lambda>b k. b @ ''/'' @ k),
       updateItemFails = (\<lambda>k t urls. False),
       scanFails = False,
       intakeFormBucket = ''intake'' \<rparr>"

definition exItem :: IntakeItem where
  "exItem = \<lparr> key = ''o@x.io-octo'', timestamp = 17, item_name = ''Octo'',
              item_email = ''o@x.io'', item_notes = [], item_githubHandle = ''octo'',
              item_shouldGitPOAPDesign = True, item_isOneGitPOAPPerRepo = True,
              item_repos = [\<lparr> item_full_name = ''octo/tool'', item_githubRepoId = 1,
                              item_admin = Some True, item_maintain = True,
                              item_push = Some True, item_triage = True,
                              item_pull = Some True \<rparr>],
              isComplete = False, images = None \<rparr>"

definition emptyWorld :: World where
  "emptyWorld = \<lparr> table = [], bucket = [], outbox = [], calls = [] \<rparr>"

section \<open>Permission tiers of PR-search records\<close>

text \<open>
  C1. For the level \<open>TRIAGE\<close> the adapter sets \<open>triage\<close> and leaves \<open>pull\<close> false, together
  with \<open>admin\<close>, \<open>maintain\<close> and \<open>push\<close>: the list tested for \<open>pull\<close> does not hold
  \<open>TRIAGE\<close>, so the tier below \<open>triage\<close> is not implied by it.
\<close>

theorem getMappedPrRepo_TRIAGE:
  "permissions (getMappedPrRepo (prEdgeWith ''octo/tool'' 7 False 0 ''TRIAGE'')) =
     Some \<lparr> admin = Some False, maintain = Some False, push = Some False,
            triage = Some True, pull = Some False \<rparr>"
  by (simp add: getMappedPrRepo_def prEdgeWith_def array_includes_def)

text \<open>The other levels are mapped as cumulative tiers, and an unknown level to all-false.\<close>

lemma getMappedPrRepo_other_levels:
  fixes pr :: PrEdge
  defines "level \<equiv> viewerPermission (repository (node pr))"
    and "perms \<equiv> permissions (getMappedPrRepo pr)"
  shows "level = ''ADMIN'' \<Longrightarrow> perms = Some \<lparr> admin = Some True, maintain = Some True,
           push = Some True, triage = Some True, pull = Some True \<rparr>"
    and "level = ''MAINTAIN'' \<Longrightarrow> perms = Some \<lparr> admin = Some False, maintain = Some True,
           push = Some True, triage = Some True, pull = Some True \<rparr>"
    and "level = ''WRITE'' \<Longrightarrow> perms = Some \<lparr> admin = Some False, maintain = Some False,
           push = Some True, triage = Some True, pull = Some True \<rparr>"
    and "level = ''READ'' \<Longrightarrow> perms = Some \<lparr> admin = Some False, maintain = Some False,
           push = Some False, triage = Some False, pull = Some True \<rparr>"
    and "level \<notin> set [''ADMIN'', ''MAINTAIN'', ''WRITE'', ''TRIAGE'', ''READ''] \<Longrightarrow>
           perms = Some \<lparr> admin = Some False, maintain = Some False,
           push = Some False, triage = Some False, pull = Some False \<rparr>"
  by (simp_all add: level_def perms_def getMappedPrRepo_def array_includes_def)

section \<open>Properties of the aggregation\<close>

lemma filter_st_fst_Cons:
  "fst (filter_st cb (x # xs) s) =
     (if fst (cb x s) then [x] else []) @ fst (filter_st cb xs (snd (cb x s)))"
  by (simp split: prod.splits)

lemma filter_st_snd_Cons:
  "snd (filter_st cb (x # xs) s) = snd (filter_st cb xs (snd (cb x s)))"
  by (simp split: prod.splits)

lemma filter_st_fst_append:
  "fst (filter_st cb (xs @ ys) s) =
     fst (filter_st cb xs s) @ fst (filter_st cb ys (snd (filter_st cb xs s)))"
  by (induction xs arbitrary: s) (simp_all add: filter_st_fst_Cons filter_st_snd_Cons del: filter_st.simps(2))

lemma filter_st_snd_append:
  "snd (filter_st cb (xs @ ys) s) = snd (filter_st cb ys (snd (filter_st cb xs s)))"
  by (induction xs arbitrary: s) (simp_all add: filter_st_snd_Cons del: filter_st.simps(2))

lemma repoFilter_eq: "repoFilter = orgFilter"
  by (intro ext) (simp add: repoFilter_def orgFilter_def)

lemma prFilter_fst:
  "fst (prFilter e s) = (\<not> isFork (repository (node e)) \<and> prId e \<notin> foundRepoIds s)"
  by (simp add: prFilter_def Let_def)

lemma prFilter_found:
  "foundRepoIds (snd (prFilter e s)) =
     (if isFork (repository (node e)) then foundRepoIds s else insert (prId e) (foundRepoIds s))"
  by (simp add: prFilter_def Let_def)

lemma orgFilter_fst:
  "fst (orgFilter r s) =
     (rest_id r \<notin> foundRepoIds s \<and> \<not> fork r \<and> \<not> tooFewStars r \<and> truthy (hasPermission r))"
  by (simp add: orgFilter_def Let_def)

lemma orgFilter_found:
  "foundRepoIds (snd (orgFilter r s)) = insert (rest_id r) (foundRepoIds s)"
  by (simp add: orgFilter_def Let_def)

lemma pr_found:
  "foundRepoIds (snd (filter_st prFilter es s)) =
     foundRepoIds s \<union> prId ` {e \<in> set es. \<not> isFork (repository (node e))}"
  by (induction es arbitrary: s)
     (auto simp: filter_st_snd_Cons prFilter_found simp del: filter_st.simps(2))

lemma pr_kept:
  "e \<in> set (fst (filter_st prFilter es s)) \<Longrightarrow>
     e \<in> set es \<and> \<not> isFork (repository (node e)) \<and> prId e \<notin> foundRepoIds s"
  by (induction es arbitrary: s)
     (fastforce simp: filter_st_fst_Cons prFilter_fst prFilter_found
        simp del: filter_st.simps(2) split: if_splits)+

lemma pr_kept_id:
  "i \<in> prId ` set (fst (filter_st prFilter es s)) \<Longrightarrow> i \<notin> foundRepoIds s"
  by (auto dest: pr_kept)

lemma pr_distinct: "distinct (map prId (fst (filter_st prFilter es s)))"
proof (induction es arbitrary: s)
  case Nil
  then show ?case by simp
next
  case (Cons x xs)
  have "prId x \<notin> prId ` set (fst (filter_st prFilter xs (snd (prFilter x s))))"
    if "\<not> isFork (repository (node x))"
    using that pr_kept_id[of "prId x" xs "snd (prFilter x s)"] by (auto simp: prFilter_found)
  with Cons.IH[of "snd (prFilter x s)"] show ?case
    by (auto simp: filter_st_fst_Cons prFilter_fst simp del: filter_st.simps(2))
qed

lemma pr_first:
  assumes "\<not> isFork (repository (node e))" and "prId e \<notin> foundRepoIds s"
    and "\<forall>x \<in> set as. isFork (repository (node x)) \<or> prId x \<noteq> prId e"
  shows "e \<in> set (fst (filter_st prFilter (as @ e # bs) s))"
proof -
  have "prId e \<notin> foundRepoIds (snd (filter_st prFilter as s))"
    using assms by (auto simp: pr_found)
  then show ?thesis using assms(1)
    by (simp add: filter_st_fst_append filter_st_fst_Cons prFilter_fst del: filter_st.simps(2))
qed

lemma org_found:
  "foundRepoIds (snd (filter_st orgFilter xs s)) = foundRepoIds s \<union> rest_id ` set xs"
  by (induction xs arbitrary: s)
     (auto simp: filter_st_snd_Cons orgFilter_found simp del: filter_st.simps(2))

lemma org_kept:
  "x \<in> set (fst (filter_st orgFilter xs s)) \<Longrightarrow>
     x \<in> set xs \<and> rest_id x \<notin> foundRepoIds s \<and> \<not> fork x \<and> \<not> tooFewStars x
     \<and> truthy (hasPermission x)"
  by (induction xs arbitrary: s)
     (fastforce simp: filter_st_fst_Cons orgFilter_fst orgFilter_found
        simp del: filter_st.simps(2) split: if_splits)+

lemma org_kept_id:
  "i \<in> rest_id ` set (fst (filter_st orgFilter xs s)) \<Longrightarrow> i \<notin> foundRepoIds s"
  by (auto dest: org_kept)

lemma org_distinct: "distinct (map rest_id (fst (filter_st orgFilter xs s)))"
proof (induction xs arbitrary: s)
  case Nil
  then show ?case by simp
next
  case (Cons y ys)
  have "rest_id y \<notin> rest_id ` set (fst (filter_st orgFilter ys (snd (orgFilter y s))))"
    using org_kept_id[of "rest_id y" ys "snd (orgFilter y s)"] by (auto simp: orgFilter_found)
  with Cons.IH[of "snd (orgFilter y s)"] show ?case
    by (auto simp: filter_st_fst_Cons simp del: filter_st.simps(2))
qed

lemma org_first_kept:
  assumes "\<not> fork r" "\<not> tooFewStars r" "truthy (hasPermission r)"
    and "rest_id r \<notin> foundRepoIds s" and "rest_id r \<notin> rest_id ` set as"
  shows "r \<in> set (fst (filter_st orgFilter (as @ r # bs) s))"
proof -
  have "rest_id r \<notin> foundRepoIds (snd (filter_st orgFilter as s))"
    using assms by (simp add: org_found)
  then show ?thesis using assms(1-3)
    by (simp add: filter_st_fst_append filter_st_fst_Cons orgFilter_fst del: filter_st.simps(2))
qed

lemma org_first_rejected:
  assumes "fork r \<or> tooFewStars r \<or> \<not> truthy (hasPermission r)"
    and "rest_id r \<notin> rest_id ` set as"
  shows "rest_id r \<notin> rest_id ` set (fst (filter_st orgFilter (as @ r # bs) s))"
proof
  assume "rest_id r \<in> rest_id ` set (fst (filter_st orgFilter (as @ r # bs) s))"
  then obtain y where y: "y \<in> set (fst (filter_st orgFilter (as @ r # bs) s))"
    and id: "rest_id y = rest_id r" by auto
  let ?s1 = "snd (filter_st orgFilter as s)"
  let ?s2 = "snd (orgFilter r ?s1)"
  from y assms(1) have "y \<in> set (fst (filter_st orgFilter as s))
      \<or> y \<in> set (fst (filter_st orgFilter bs ?s2))"
    by (auto simp: filter_st_fst_append filter_st_fst_Cons orgFilter_fst
          simp del: filter_st.simps(2) split: if_splits)
  then show False
  proof
    assume "y \<in> set (fst (filter_st orgFilter as s))"
    then have "y \<in> set as" using org_kept[of y as s] by simp
    then have "rest_id y \<in> rest_id ` set as" by simp
    with id assms(2) show False by simp
  next
    assume "y \<in> set (fst (filter_st orgFilter bs ?s2))"
    then have "rest_id y \<notin> foundRepoIds ?s2" using org_kept[of y bs ?s2] by simp
    with id show False by (simp add: orgFilter_found)
  qed
qed

lemma foldl_append_concat: "foldl (\<lambda>acc selected. acc @ selected) a xss = a @ concat xss"
  by (induction xss arbitrary: a) simp_all

lemma uniquePrRepos_aggregate:
  "uniquePrRepos (aggregate edges reposData orgsData) = fst (filter_st prFilter edges noneSeen)"
  by (simp add: aggregate_def Let_def split: prod.splits)

lemma keptOrgRepos_aggregate:
  "keptOrgRepos (aggregate edges reposData orgsData) =
     fst (filter_st orgFilter (concat orgsData) (afterPr edges))"
  by (simp add: aggregate_def Let_def foldl_append_concat split: prod.splits)

lemma keptRepos_aggregate:
  "keptRepos (aggregate edges reposData orgsData) =
     fst (filter_st orgFilter reposData
            (snd (filter_st orgFilter (concat orgsData) (afterPr edges))))"
  by (simp add: aggregate_def Let_def foldl_append_concat repoFilter_eq split: prod.splits)

lemma finalSets_aggregate:
  "finalSets (aggregate edges reposData orgsData) =
     snd (filter_st orgFilter reposData
            (snd (filter_st orgFilter (concat orgsData) (afterPr edges))))"
  by (simp add: aggregate_def Let_def foldl_append_concat repoFilter_eq split: prod.splits)

lemma listed_kept_aggregate:
  "keptOrgRepos (aggregate edges reposData orgsData) @ keptRepos (aggregate edges reposData orgsData)
     = fst (filter_st orgFilter (concat orgsData @ reposData) (afterPr edges))"
  by (simp add: keptOrgRepos_aggregate keptRepos_aggregate filter_st_fst_append)

lemma afterPr_found:
  "foundRepoIds (afterPr edges) = prId ` {e \<in> set edges. \<not> isFork (repository (node e))}"
  by (simp add: pr_found)

lemma ids_allRepos:
  "map githubRepoId (allRepos a) =
     map rest_id (keptRepos a) @ map rest_id (keptOrgRepos a) @ map prId (uniquePrRepos a)"
  by (simp add: allRepos_def mappedRepos_def mappedOrgRepos_def mappedPrRepos_def
        getMappedRepo_def getMappedOrgRepo_def getMappedPrRepo_def comp_def)

lemma aggregate_ids_distinct:
  "distinct (map githubRepoId (allRepos (aggregate edges reposData orgsData)))"
proof -
  let ?a = "aggregate edges reposData orgsData"
  let ?s1 = "afterPr edges"
  let ?s2 = "snd (filter_st orgFilter (concat orgsData) ?s1)"
  have pr_in: "prId ` set (uniquePrRepos ?a) \<subseteq> foundRepoIds ?s1"
    using pr_kept[of _ edges noneSeen] by (auto simp: uniquePrRepos_aggregate afterPr_found)
  have org_in: "rest_id ` set (keptOrgRepos ?a) \<subseteq> foundRepoIds ?s2"
    using org_kept[of _ "concat orgsData" ?s1]
    by (auto simp: keptOrgRepos_aggregate org_found simp del: set_concat)
  have s12: "foundRepoIds ?s1 \<subseteq> foundRepoIds ?s2"
    by (simp add: org_found)
  have org_out: "rest_id ` set (keptOrgRepos ?a) \<inter> foundRepoIds ?s1 = {}"
    using org_kept_id[of _ "concat orgsData" ?s1] by (auto simp: keptOrgRepos_aggregate)
  have pers_out: "rest_id ` set (keptRepos ?a) \<inter> foundRepoIds ?s2 = {}"
    using org_kept_id[of _ reposData ?s2] by (auto simp: keptRepos_aggregate)
  have d1: "distinct (map rest_id (keptRepos ?a))"
    by (simp add: keptRepos_aggregate org_distinct)
  have d2: "distinct (map rest_id (keptOrgRepos ?a))"
    by (simp add: keptOrgRepos_aggregate org_distinct)
  have d3: "distinct (map prId (uniquePrRepos ?a))"
    by (simp add: uniquePrRepos_aggregate pr_distinct)
  have "rest_id ` set (keptRepos ?a) \<inter> rest_id ` set (keptOrgRepos ?a) = {}"
    using pers_out org_in by blast
  moreover have "rest_id ` set (keptRepos ?a) \<inter> prId ` set (uniquePrRepos ?a) = {}"
    using pers_out pr_in s12 by blast
  moreover have "rest_id ` set (keptOrgRepos ?a) \<inter> prId ` set (uniquePrRepos ?a) = {}"
    using org_out pr_in by blast
  ultimately show ?thesis
    using d1 d2 d3 by (simp add: ids_allRepos Int_Un_distrib)
qed

text \<open>
  C5. Whenever the route answers with status 200, no two records of the returned list have
  the same \<open>githubRepoId\<close>, whatever the three sources hold (duplicates inside a source and
  across sources included).
\<close>

theorem returned_ids_distinct:
  "githubRepos prsResult reposResult orgsResult = Status200 rs \<Longrightarrow> distinct (map githubRepoId rs)"
  by (auto simp: githubRepos_def aggregate_ids_distinct split: sum.splits)

text \<open>
  C8. The returned list is the personal records that were kept, then the organization
  records that were kept, then the PR records that were kept, each mapped by its adapter;
  every kept record is a record of its source and none of them is marked as a fork.
\<close>

theorem no_fork_returned:
  assumes "a = aggregate edges reposData orgsData"
  shows "githubRepos (Inr edges) (Inr reposData) (Inr orgsData) =
           Status200 (map getMappedRepo (keptRepos a) @ map getMappedOrgRepo (keptOrgRepos a)
                        @ map getMappedPrRepo (uniquePrRepos a))
         \<and> (\<forall>x \<in> set (keptRepos a). x \<in> set reposData \<and> \<not> fork x)
         \<and> (\<forall>x \<in> set (keptOrgRepos a). x \<in> set (concat orgsData) \<and> \<not> fork x)
         \<and> (\<forall>e \<in> set (uniquePrRepos a). e \<in> set edges \<and> \<not> isFork (repository (node e)))"
proof -
  have 1: "\<forall>x \<in> set (keptRepos a). x \<in> set reposData \<and> \<not> fork x"
    unfolding assms keptRepos_aggregate using org_kept by blast
  have 2: "\<forall>x \<in> set (keptOrgRepos a). x \<in> set (concat orgsData) \<and> \<not> fork x"
    unfolding assms keptOrgRepos_aggregate using org_kept by blast
  have 3: "\<forall>e \<in> set (uniquePrRepos a). e \<in> set edges \<and> \<not> isFork (repository (node e))"
    unfolding assms uniquePrRepos_aggregate using pr_kept by blast
  have 0: "githubRepos (Inr edges) (Inr reposData) (Inr orgsData) =
           Status200 (map getMappedRepo (keptRepos a) @ map getMappedOrgRepo (keptOrgRepos a)
                        @ map getMappedPrRepo (uniquePrRepos a))"
    by (simp add: githubRepos_def allRepos_def mappedRepos_def mappedOrgRepos_def
          mappedPrRepos_def assms)
  from 0 1 2 3 show ?thesis by blast
qed

text \<open>
  C6. A PR-search record that is not a fork and whose id is not the id of an earlier
  non-fork PR record is returned, mapped, whatever its star count and permission level:
  the PR filter reads neither.
\<close>

theorem pr_repo_exempt_from_filters:
  assumes "edges = as @ e # bs"
    and "\<not> isFork (repository (node e))"
    and "\<forall>x \<in> set as. isFork (repository (node x)) \<or> prId x \<noteq> prId e"
  shows "\<exists>rs. githubRepos (Inr edges) (Inr reposData) (Inr orgsData) = Status200 rs
           \<and> getMappedPrRepo e \<in> set rs"
proof -
  have "e \<in> set (uniquePrRepos (aggregate edges reposData orgsData))"
    unfolding uniquePrRepos_aggregate assms(1)
    using assms(2,3) by (intro pr_first) simp_all
  then show ?thesis
    by (simp add: githubRepos_def allRepos_def mappedPrRepos_def)
qed

lemma listed_ids_found:
  "rest_id ` set (concat orgsData @ reposData)
     \<subseteq> foundRepoIds (finalSets (aggregate edges reposData orgsData))"
  by (auto simp: finalSets_aggregate org_found simp del: set_concat)

lemma ids_listed_segments:
  "githubRepoId ` set (mappedRepos a) = rest_id ` set (keptRepos a)"
  "githubRepoId ` set (mappedOrgRepos a) = rest_id ` set (keptOrgRepos a)"
  "githubRepoId ` set (mappedPrRepos a) = prId ` set (uniquePrRepos a)"
  by (auto simp: mappedRepos_def mappedOrgRepos_def mappedPrRepos_def getMappedRepo_def
        getMappedOrgRepo_def getMappedPrRepo_def image_iff)

text \<open>
  C9. Both listing callbacks add the id to \<open>foundRepoIds\<close> whatever they answer, so every
  listed id ends up in the set. If the first listed record with some id (in the order the
  lists are filtered: organization listings, then the personal listing) reaches the fork,
  star and permission checks and fails one, then no returned record has that id, even if a
  later record with the same id would pass.
\<close>

theorem rejected_listed_repo_blocks_id:
  assumes "concat orgsData @ reposData = as @ r # bs"
    and "rest_id r \<notin> rest_id ` set as"
    and "\<forall>e \<in> set edges. isFork (repository (node e)) \<or> prId e \<noteq> rest_id r"
    and "fork r \<or> tooFewStars r \<or> \<not> truthy (hasPermission r)"
  shows "rest_id r \<in> foundRepoIds (snd (orgFilter r s))
       \<and> rest_id r \<in> foundRepoIds (snd (repoFilter r s))
       \<and> rest_id ` set (concat orgsData @ reposData)
            \<subseteq> foundRepoIds (finalSets (aggregate edges reposData orgsData))
       \<and> rest_id r \<notin> githubRepoId ` set (allRepos (aggregate edges reposData orgsData))"
proof -
  let ?a = "aggregate edges reposData orgsData"
  have listed: "rest_id r \<notin> rest_id ` set (keptOrgRepos ?a @ keptRepos ?a)"
    unfolding listed_kept_aggregate assms(1) using assms(4,2) by (rule org_first_rejected)
  have "rest_id r \<notin> prId ` set (uniquePrRepos ?a)"
    using assms(3) pr_kept[of _ edges noneSeen] by (force simp: uniquePrRepos_aggregate)
  with listed have "rest_id r \<notin> githubRepoId ` set (allRepos ?a)"
    by (simp add: allRepos_def ids_listed_segments image_Un)
  then show ?thesis
    by (simp add: orgFilter_found repoFilter_eq listed_ids_found del: set_append set_concat)
qed

text \<open>
  C2, amended. The filters run over the PR results first, then over the organization
  listings, then over the personal listing. So for an id listed both by an organization and
  personally, and not the id of a non-fork PR record, no personal record with that id is
  kept, and the first organization record with that id is kept when it is not a fork, has
  at least 2 stars and has one of \<open>admin\<close>, \<open>maintain\<close>, \<open>push\<close>. No listed record with the id
  of a non-fork PR record is kept.
\<close>

theorem organization_record_wins_over_personal:
  assumes "a = aggregate edges reposData orgsData"
    and "concat orgsData = as @ r # bs"
    and "rest_id r \<notin> rest_id ` set as"
    and "p \<in> set reposData"
    and "rest_id p = rest_id r"
    and "\<forall>e \<in> set edges. isFork (repository (node e)) \<or> prId e \<noteq> rest_id r"
  shows "rest_id r \<notin> githubRepoId ` set (mappedRepos a)
       \<and> (\<not> fork r \<and> \<not> tooFewStars r \<and> truthy (hasPermission r)
            \<longrightarrow> getMappedOrgRepo r \<in> set (mappedOrgRepos a))
       \<and> (\<forall>e \<in> set edges. \<not> isFork (repository (node e))
            \<longrightarrow> prId e \<notin> githubRepoId ` set (mappedRepos a @ mappedOrgRepos a))"
proof -
  let ?s1 = "afterPr edges"
  let ?s2 = "snd (filter_st orgFilter (concat orgsData) ?s1)"
  have "rest_id r \<in> foundRepoIds ?s2"
    by (simp add: org_found assms(2))
  then have A: "rest_id r \<notin> githubRepoId ` set (mappedRepos a)"
    using org_kept_id[of "rest_id r" reposData ?s2]
    by (auto simp: ids_listed_segments assms(1) keptRepos_aggregate)
  have B: "getMappedOrgRepo r \<in> set (mappedOrgRepos a)"
    if "\<not> fork r" "\<not> tooFewStars r" "truthy (hasPermission r)"
  proof -
    have "r \<in> set (fst (filter_st orgFilter (as @ r # bs) ?s1))"
      using that assms(6,3) by (intro org_first_kept) (auto simp: afterPr_found)
    then show ?thesis
      by (simp add: mappedOrgRepos_def assms(1) keptOrgRepos_aggregate assms(2))
  qed
  have C: "\<forall>e \<in> set edges. \<not> isFork (repository (node e))
            \<longrightarrow> prId e \<notin> githubRepoId ` set (mappedRepos a @ mappedOrgRepos a)"
  proof -
    have "githubRepoId ` set (mappedRepos a @ mappedOrgRepos a)
            = rest_id ` set (keptOrgRepos a @ keptRepos a)"
      by (auto simp: ids_listed_segments image_Un)
    also have "\<dots> \<inter> foundRepoIds ?s1 = {}"
      unfolding assms(1) listed_kept_aggregate
      using org_kept_id[of _ "concat orgsData @ reposData" ?s1] by blast
    finally show ?thesis by (auto simp: afterPr_found)
  qed
  from A B C show ?thesis by blast
qed

lemmas ex_defs = exPr_def exPrFork_def exPersonal_def exOrg_def exOrgFork_def prEdgeWith_def
  restRepoWith_def adminPerms_def pullPerms_def

lemmas agg_defs = aggregate_def allRepos_def mappedRepos_def mappedOrgRepos_def mappedPrRepos_def
  prFilter_def orgFilter_def repoFilter_def tooFewStars_def hasPermission_def js_or_def
  opt_chain_def truthy_def githubRepos_def

text \<open>
  C2 as stated fails: with the same repository in the personal listing and in an
  organization listing, the personal segment is empty and the organization record is the
  one returned.
\<close>

theorem personal_wins_counterexample:
  "mappedRepos (aggregate [] [exPersonal] [[exOrg]]) = []
   \<and> allRepos (aggregate [] [exPersonal] [[exOrg]]) = [getMappedOrgRepo exOrg]
   \<and> getMappedOrgRepo exOrg \<noteq> getMappedRepo exPersonal"
  by (simp add: agg_defs ex_defs getMappedOrgRepo_def getMappedRepo_def)

text \<open>C2, amended, at a repository listed by an organization and personally.\<close>

theorem organization_record_wins_over_personal_witness:
  "rest_id exOrg \<notin> githubRepoId ` set (mappedRepos (aggregate [exPr] [exPersonal] [[exOrg]]))
   \<and> getMappedOrgRepo exOrg \<in> set (mappedOrgRepos (aggregate [exPr] [exPersonal] [[exOrg]]))"
proof -
  have h2: "concat [[exOrg]] = [] @ exOrg # []" by simp
  have h3: "rest_id exOrg \<notin> rest_id ` set []" by simp
  have h4: "exPersonal \<in> set [exPersonal]" by simp
  have h5: "rest_id exPersonal = rest_id exOrg" by (simp add: ex_defs)
  have h6: "\<forall>e \<in> set [exPr]. isFork (repository (node e)) \<or> prId e \<noteq> rest_id exOrg"
    by (simp add: ex_defs)
  have passes: "\<not> fork exOrg \<and> \<not> tooFewStars exOrg \<and> truthy (hasPermission exOrg)"
    by (simp add: ex_defs agg_defs)
  from organization_record_wins_over_personal[OF refl h2 h3 h4 h5 h6] passes
  show ?thesis by blast
qed

text \<open>C5 at an input with duplicates inside every source and across the sources.\<close>

theorem returned_ids_distinct_witness:
  "githubRepos (Inr [exPr, exPrFork, exPr]) (Inr [exPersonal, exPersonal]) (Inr [[exOrg], [exOrg]])
     = Status200 [getMappedOrgRepo exOrg, getMappedPrRepo exPr]
   \<and> distinct (map githubRepoId [getMappedOrgRepo exOrg, getMappedPrRepo exPr])"
proof -
  have eq: "githubRepos (Inr [exPr, exPrFork, exPr]) (Inr [exPersonal, exPersonal])
      (Inr [[exOrg], [exOrg]]) = Status200 [getMappedOrgRepo exOrg, getMappedPrRepo exPr]"
    by (simp add: agg_defs ex_defs)
  from returned_ids_distinct[OF eq] eq show ?thesis by simp
qed

text \<open>C8 at an input with a forked PR repository and a forked organization repository.\<close>

theorem no_fork_returned_witness:
  "githubRepos (Inr [exPrFork, exPr]) (Inr [exPersonal]) (Inr [[exOrgFork]])
     = Status200 [getMappedPrRepo exPr]
   \<and> keptRepos (aggregate [exPrFork, exPr] [exPersonal] [[exOrgFork]]) = []
   \<and> keptOrgRepos (aggregate [exPrFork, exPr] [exPersonal] [[exOrgFork]]) = []
   \<and> uniquePrRepos (aggregate [exPrFork, exPr] [exPersonal] [[exOrgFork]]) = [exPr]
   \<and> \<not> isFork (repository (node exPr))"
proof -
  have k: "keptRepos (aggregate [exPrFork, exPr] [exPersonal] [[exOrgFork]]) = []"
    "keptOrgRepos (aggregate [exPrFork, exPr] [exPersonal] [[exOrgFork]]) = []"
    "uniquePrRepos (aggregate [exPrFork, exPr] [exPersonal] [[exOrgFork]]) = [exPr]"
    by (simp_all add: agg_defs ex_defs)
  from no_fork_returned[OF refl, of "[exPrFork, exPr]" "[exPersonal]" "[[exOrgFork]]"] k
  show ?thesis by simp
qed

text \<open>C6 at a PR repository with 0 stars and only the \<open>pull\<close> permission.\<close>

theorem pr_repo_exempt_from_filters_witness:
  "stargazerCount (repository (node exPr)) = 0
   \<and> permissions (getMappedPrRepo exPr) = Some pullPerms
   \<and> githubRepos (Inr [exPrFork, exPr, exPr]) (Inr [exPersonal]) (Inr [[exOrg]])
       = Status200 [getMappedOrgRepo exOrg, getMappedPrRepo exPr]
   \<and> getMappedPrRepo exPr \<in> set [getMappedOrgRepo exOrg, getMappedPrRepo exPr]"
proof -
  have h1: "[exPrFork, exPr, exPr] = [exPrFork] @ exPr # [exPr]" by simp
  have h2: "\<not> isFork (repository (node exPr))" by (simp add: ex_defs)
  have h3: "\<forall>x \<in> set [exPrFork]. isFork (repository (node x)) \<or> prId x \<noteq> prId exPr"
    by (simp add: ex_defs)
  have eq: "githubRepos (Inr [exPrFork, exPr, exPr]) (Inr [exPersonal]) (Inr [[exOrg]])
       = Status200 [getMappedOrgRepo exOrg, getMappedPrRepo exPr]"
    by (simp add: agg_defs ex_defs)
  have p: "stargazerCount (repository (node exPr)) = 0
     \<and> permissions (getMappedPrRepo exPr) = Some pullPerms"
    by (simp add: ex_defs getMappedPrRepo_def array_includes_def)
  from pr_repo_exempt_from_filters[OF h1 h2 h3, of "[exPersonal]" "[[exOrg]]"] eq p
  show ?thesis by simp
qed

text \<open>
  C9 at an organization listing with a fork of id 42 followed by a personal listing whose
  record of id 42 passes every check.
\<close>

theorem rejected_listed_repo_blocks_id_witness:
  "fork exOrgFork
   \<and> rest_id exOrgFork \<in> foundRepoIds (finalSets (aggregate [exPr] [exPersonal] [[exOrgFork]]))
   \<and> rest_id exOrgFork
        \<notin> githubRepoId ` set (allRepos (aggregate [exPr] [exPersonal] [[exOrgFork]]))
   \<and> allRepos (aggregate [exPr] [exPersonal] [[exOrgFork]]) = [getMappedPrRepo exPr]
   \<and> \<not> fork exPersonal \<and> \<not> tooFewStars exPersonal \<and> truthy (hasPermission exPersonal)"
proof -
  have h1: "concat [[exOrgFork]] @ [exPersonal] = [] @ exOrgFork # [exPersonal]" by simp
  have h2: "rest_id exOrgFork \<notin> rest_id ` set []" by simp
  have h3: "\<forall>e \<in> set [exPr]. isFork (repository (node e)) \<or> prId e \<noteq> rest_id exOrgFork"
    by (simp add: ex_defs)
  have h4: "fork exOrgFork \<or> tooFewStars exOrgFork \<or> \<not> truthy (hasPermission exOrgFork)"
    by (simp add: ex_defs)
  have f: "fork exOrgFork" by (simp add: ex_defs)
  have ev: "allRepos (aggregate [exPr] [exPersonal] [[exOrgFork]]) = [getMappedPrRepo exPr]"
    by (simp add: agg_defs ex_defs)
  have ok: "\<not> fork exPersonal \<and> \<not> tooFewStars exPersonal \<and> truthy (hasPermission exPersonal)"
    by (simp add: agg_defs ex_defs)
  from rejected_listed_repo_blocks_id[OF h1 h2 h3 h4] f ev ok
  show ?thesis by (simp del: set_concat set_append)
qed

section \<open>Properties of the repo-name list\<close>

lemma split_on_nonempty: "split_on sep s \<noteq> []"
  by (induction s) (auto split: list.splits)

lemma split_on_no_sep: "sep \<notin> set a \<Longrightarrow> split_on sep a = [a]"
  by (induction a) auto

lemma split_on_first: "sep \<notin> set a \<Longrightarrow> split_on sep (a @ sep # b) = a # split_on sep b"
  by (induction a) auto

lemma secondSegment_owner_name:
  assumes "CHR ''/'' \<notin> set ownr" and "CHR ''/'' \<notin> set nm"
  shows "secondSegment (r\<lparr>full_name := ownr @ ''/'' @ nm\<rparr>) = nm"
  using assms by (simp add: secondSegment_def split_on_first split_on_no_sep)

lemma formatLoop_done: "length selected \<le> i \<Longrightarrow> formatLoop selected i acc = acc"
  by (subst formatLoop.simps) simp

lemma butlast_drop_step:
  "i + 1 < length xs \<Longrightarrow> butlast (drop i xs) = xs ! i # butlast (drop (i + 1) xs)"
  by (metis Cons_nth_drop_Suc Suc_eq_plus1 Suc_lessD butlast.simps(2) drop_eq_Nil2 not_less)

lemma formatLoop_all_named:
  "i < length selected \<Longrightarrow> length selected \<le> 6 \<Longrightarrow>
     formatLoop selected i acc =
       acc @ concat (map (\<lambda>r. '', '' @ secondSegment r) (butlast (drop i selected)))
           @ '', and '' @ secondSegment (last selected)"
proof (induction selected i acc rule: formatLoop.induct)
  case (1 selected i response)
  show ?case
  proof (cases "i + 1 = length selected")
    case True
    then have d: "drop i selected = [last selected]"
      by (metis "1.prems"(1) Cons_nth_drop_Suc Suc_eq_plus1 drop_all last_conv_nth le_refl
            length_greater_0_conv less_nat_zero_code list.size(3) diff_add_inverse2)
    have l: "selected ! i = last selected"
      using True "1.prems"(1) by (metis add_diff_cancel_right' last_conv_nth length_0_conv not_less_zero)
    show ?thesis
      using True "1.prems" d l
      by (subst formatLoop.simps) (simp add: formatLoop_done)
  next
    case False
    with "1.prems" have lt: "i + 1 < length selected" and i5: "i < 5" by auto
    have "formatLoop selected i response =
        formatLoop selected (i + 1) (response @ '', '' @ secondSegment (selected ! i))"
      using False "1.prems"(1) i5 by (subst formatLoop.simps) simp
    also have "\<dots> = (response @ '', '' @ secondSegment (selected ! i))
        @ concat (map (\<lambda>r. '', '' @ secondSegment r) (butlast (drop (i + 1) selected)))
        @ '', and '' @ secondSegment (last selected)"
      using "1.IH"(2)[OF "1.prems"(1) False i5 lt "1.prems"(2)] .
    finally show ?thesis
      by (simp add: butlast_drop_step[OF lt])
  qed
qed

lemma formatLoop_more:
  "7 \<le> length selected \<Longrightarrow> i \<le> 5 \<Longrightarrow>
     formatLoop selected i acc =
       acc @ concat (map (\<lambda>r. '', '' @ secondSegment r) (take (5 - i) (drop i selected)))
           @ '', and '' @ numberToString (length selected - 5) @ '' more''"
proof (induction selected i acc rule: formatLoop.induct)
  case (1 selected i response)
  show ?case
  proof (cases "i < 5")
    case True
    with "1.prems" have lt: "i < length selected" and ne: "i + 1 \<noteq> length selected" by auto
    have t: "take (5 - i) (drop i selected) = selected ! i # take (5 - (i + 1)) (drop (i + 1) selected)"
      using True lt by (metis Cons_nth_drop_Suc Suc_diff_Suc Suc_eq_plus1 take_Suc_Cons)
    have "formatLoop selected i response =
        formatLoop selected (i + 1) (response @ '', '' @ secondSegment (selected ! i))"
      using lt ne True by (subst formatLoop.simps) simp
    also have "\<dots> = (response @ '', '' @ secondSegment (selected ! i))
        @ concat (map (\<lambda>r. '', '' @ secondSegment r) (take (5 - (i + 1)) (drop (i + 1) selected)))
        @ '', and '' @ numberToString (length selected - 5) @ '' more''"
      using "1.IH"(2)[OF lt ne True "1.prems"(1)] True by simp
    finally show ?thesis by (simp add: t)
  next
    case False
    with "1.prems" have "i = 5" by simp
    with "1.prems" show ?thesis by (subst formatLoop.simps) simp
  qed
qed

lemma commaJoined_Cons:
  "commaJoined (x # xs) = x @ concat (map (\<lambda>s. '', '' @ s) xs)"
  by (induction xs arbitrary: x) simp_all

text \<open>
  C3, amended. On a non-empty list \<open>formatRepos\<close> returns: for 1 item the bare name; for 2 to
  6 items the names before the last joined by commas, then \<open>, and\<close> and the last name; for
  more than 6 items the first five names joined by commas, then \<open>, and K more\<close> with
  \<open>K = total - 5\<close>. The name of an item is the piece of \<open>full_name\<close> after the owner's slash.
\<close>

theorem formatRepos_text:
  assumes "selected \<noteq> []"
  shows "formatRepos selected = Inr
           (if length selected = 1 then secondSegment (selected ! 0)
            else if length selected \<le> 6
              then commaJoined (map secondSegment (butlast selected))
                     @ '', and '' @ secondSegment (last selected)
            else commaJoined (map secondSegment (take 5 selected))
                   @ '', and '' @ numberToString (length selected - 5) @ '' more'')
         \<and> (\<forall>ownr nm r. CHR ''/'' \<notin> set ownr \<and> CHR ''/'' \<notin> set nm
               \<longrightarrow> secondSegment (r\<lparr>full_name := ownr @ ''/'' @ nm\<rparr>) = nm)"
proof -
  from assms obtain first rest where selected: "selected = first # rest" by (cases selected) auto
  have fr: "formatRepos selected = Inr (formatLoop selected 1 (secondSegment first))"
    by (simp add: formatRepos_def selected)
  have "formatLoop selected 1 (secondSegment first) =
          (if length selected = 1 then secondSegment (selected ! 0)
            else if length selected \<le> 6
              then commaJoined (map secondSegment (butlast selected))
                     @ '', and '' @ secondSegment (last selected)
            else commaJoined (map secondSegment (take 5 selected))
                   @ '', and '' @ numberToString (length selected - 5) @ '' more'')"
  proof (cases "length selected = 1")
    case True
    then show ?thesis by (simp add: formatLoop_done selected)
  next
    case False
    then have rest: "rest \<noteq> []" by (simp add: selected)
    show ?thesis
    proof (cases "length selected \<le> 6")
      case True
      have "1 < length selected" using rest by (simp add: selected)
      from formatLoop_all_named[OF this True, of "secondSegment first"] False True rest
      show ?thesis
        by (simp add: selected commaJoined_Cons map_butlast[symmetric] comp_def)
    next
      case six: False
      then have "7 \<le> length selected" by simp
      from formatLoop_more[OF this, of 1 "secondSegment first"] False six
      show ?thesis
        by (simp add: selected commaJoined_Cons take_map[symmetric] comp_def)
    qed
  qed
  with fr have main: "formatRepos selected = Inr
           (if length selected = 1 then secondSegment (selected ! 0)
            else if length selected \<le> 6
              then commaJoined (map secondSegment (butlast selected))
                     @ '', and '' @ secondSegment (last selected)
            else commaJoined (map secondSegment (take 5 selected))
                   @ '', and '' @ numberToString (length selected - 5) @ '' more'')"
    by simp
  have seg: "\<forall>ownr nm r. CHR ''/'' \<notin> set ownr \<and> CHR ''/'' \<notin> set nm
               \<longrightarrow> secondSegment (r\<lparr>full_name := ownr @ ''/'' @ nm\<rparr>) = nm"
    using secondSegment_owner_name by blast
  from main seg show ?thesis by (rule conjI)
qed

text \<open>
  C3 as stated fails at 6 items: the sixth index is the last one, so the loop takes the
  branch of the final item and names it instead of writing \<open>and 1 more\<close>.
\<close>

theorem formatRepos_six_counterexample:
  "formatRepos sixRepos = Inr ''a, b, c, d, e, and f''
   \<and> formatRepos sixRepos \<noteq> Inr ''a, b, c, d, e, and 1 more''"
  by (simp add: sixRepos_def formatRepos_def formatLoop.simps secondSegment_def repoNamed_def)

text \<open>C3, amended, at lists of 1, 2, 3 and 7 items (the three examples of the specification among them).\<close>

theorem formatRepos_text_witness:
  "formatRepos (map repoNamed [''o/alpha'']) = Inr ''alpha''
   \<and> formatRepos (map repoNamed [''o/alpha'', ''o/beta'']) = Inr ''alpha, and beta''
   \<and> formatRepos (map repoNamed [''o/a'', ''o/b'', ''o/c'']) = Inr ''a, b, and c''
   \<and> formatRepos (map repoNamed [''o/a'', ''o/b'', ''o/c'', ''o/d'', ''o/e'', ''o/f'', ''o/g''])
       = Inr ''a, b, c, d, e, and 2 more''"
proof -
  have n: "map repoNamed [''o/alpha''] \<noteq> []" "map repoNamed [''o/alpha'', ''o/beta''] \<noteq> []"
    "map repoNamed [''o/a'', ''o/b'', ''o/c''] \<noteq> []"
    "map repoNamed [''o/a'', ''o/b'', ''o/c'', ''o/d'', ''o/e'', ''o/f'', ''o/g''] \<noteq> []"
    by simp_all
  have eval: "secondSegment (repoNamed ''o/alpha'') = ''alpha''"
    "secondSegment (repoNamed ''o/beta'') = ''beta''"
    "secondSegment (repoNamed ''o/a'') = ''a''" "secondSegment (repoNamed ''o/b'') = ''b''"
    "secondSegment (repoNamed ''o/c'') = ''c''" "secondSegment (repoNamed ''o/d'') = ''d''"
    "secondSegment (repoNamed ''o/e'') = ''e''" "numberToString (Suc (Suc 0)) = ''2''"
    by (simp_all add: secondSegment_def repoNamed_def digitChar_def numberToString.simps)
  from formatRepos_text[OF n(1)] formatRepos_text[OF n(2)] formatRepos_text[OF n(3)]
    formatRepos_text[OF n(4)]
  show ?thesis by (simp add: eval)
qed

section \<open>Properties of the submission pipeline\<close>

lemma uploadImages_fails_at:
  assumes "k < length imgs"
    and "\<forall>i<k. \<not> uploadFails c (imgs ! i) (intakeFormBucket c) (imageKey req (index + i))"
    and "uploadFails c (imgs ! k) (intakeFormBucket c) (imageKey req (index + k))"
  shows "fst (uploadImages c req index imgs urls w) = None
       \<and> calls (snd (uploadImages c req index imgs urls w))
           = calls w @ map (\<lambda>i. Upload (imageKey req i)) [index..<index + k + 1]
       \<and> table (snd (uploadImages c req index imgs urls w)) = table w
       \<and> outbox (snd (uploadImages c req index imgs urls w)) = outbox w"
  using assms
proof (induction imgs arbitrary: k index urls w)
  case Nil
  then show ?case by simp
next
  case (Cons img rest)
  show ?case
  proof (cases k)
    case 0
    with Cons.prems show ?thesis by (simp add: Let_def)
  next
    case (Suc j)
    from Cons.prems(2) Suc have ok: "\<not> uploadFails c img (intakeFormBucket c) (imageKey req index)"
      by (metis add.right_neutral nth_Cons_0 zero_less_Suc)
    have j: "j < length rest" using Cons.prems(1) Suc by simp
    have a: "\<forall>i<j. \<not> uploadFails c (rest ! i) (intakeFormBucket c) (imageKey req (index + 1 + i))"
    proof (intro allI impI)
      fix i assume "i < j"
      then have "Suc i < k" using Suc by simp
      with Cons.prems(2) have "\<not> uploadFails c ((img # rest) ! Suc i) (intakeFormBucket c)
          (imageKey req (index + Suc i))" by blast
      then show "\<not> uploadFails c (rest ! i) (intakeFormBucket c) (imageKey req (index + 1 + i))"
        by simp
    qed
    have b: "uploadFails c (rest ! j) (intakeFormBucket c) (imageKey req (index + 1 + j))"
      using Cons.prems(3) Suc by simp
    have u: "[index..<index + k + 1] = index # [index + 1..<index + 1 + j + 1]"
      using Suc by (simp add: upt_conv_Cons)
    let ?urls = "urls @ [getS3URL c (intakeFormBucket c) (imageKey req index)]"
    let ?w = "w\<lparr>calls := calls w @ [Upload (imageKey req index)],
                bucket := bucket w @ [(imageKey req index, img)]\<rparr>"
    have step: "uploadImages c req index (img # rest) urls w
        = uploadImages c req (index + 1) rest ?urls ?w"
      using ok by (simp add: Let_def)
    have ih: "fst (uploadImages c req (index + 1) rest ?urls ?w) = None
       \<and> calls (snd (uploadImages c req (index + 1) rest ?urls ?w))
           = calls ?w @ map (\<lambda>i. Upload (imageKey req i)) [index + 1..<index + 1 + j + 1]
       \<and> table (snd (uploadImages c req (index + 1) rest ?urls ?w)) = table ?w
       \<and> outbox (snd (uploadImages c req (index + 1) rest ?urls ?w)) = outbox ?w"
      by (rule Cons.IH[OF j a b])
    have cw: "calls ?w = calls w @ [Upload (imageKey req index)]" "table ?w = table w"
      "outbox ?w = outbox w" by simp_all
    show ?thesis
      unfolding step u using ih unfolding cw by simp
  qed
qed

lemma persistRecord_ok:
  assumes "createIntakeFormDocForDynamo c (body req) (unixTime req) = Inr item"
    and "\<not> putItemFails c item"
  shows "persistRecord c req w =
           (True, w\<lparr>calls := calls w @ [PutItem item], table := putItem item (table w)\<rparr>)"
  using assms by (simp add: persistRecord_def Let_def)

lemma putItem_member: "item \<in> set (putItem item items)"
  by (induction items) auto

lemma created_item_images:
  "createIntakeFormDocForDynamo c formData ts = Inr item \<Longrightarrow> images item = None \<and> \<not> isComplete item"
  by (auto simp: createIntakeFormDocForDynamo_def split: sum.splits)

text \<open>
  C7. When the request passes the three schemas and the record is written, and the upload of
  the image at index \<open>k\<close> is the first to fail, then the answer is status 400 with the message
  for the assets; the calls made are the write of the record and the uploads of the
  indices 0 to \<open>k\<close>, in this order, and nothing else (no later upload, no update, no
  delete); the table is the one the write left, holding the record, whose \<open>images\<close>
  attribute is unset; and no message is sent.
\<close>

theorem upload_failure_aborts_request:
  assumes "formIssues c (body req) = None"
    and "parseRepos c (repos (body req)) = Inr parsed"
    and "reposIssues c parsed = None"
    and "filesIssues c (files req) = None"
    and "createIntakeFormDocForDynamo c (body req) (unixTime req) = Inr item"
    and "\<not> putItemFails c item"
    and "files req = Some imgs"
    and "k < length imgs"
    and "\<forall>i<k. \<not> uploadFails c (imgs ! i) (intakeFormBucket c) (imageKey req i)"
    and "uploadFails c (imgs ! k) (intakeFormBucket c) (imageKey req k)"
  shows "fst (intakeForm c req w) = Msg400 ''Failed to submit intake form assets to S3''
       \<and> calls (snd (intakeForm c req w))
           = calls w @ PutItem item # map (\<lambda>i. Upload (imageKey req i)) [0..<k + 1]
       \<and> table (snd (intakeForm c req w)) = putItem item (table w)
       \<and> item \<in> set (table (snd (intakeForm c req w)))
       \<and> images item = None
       \<and> outbox (snd (intakeForm c req w)) = outbox w"
proof -
  let ?w1 = "w\<lparr>calls := calls w @ [PutItem item], table := putItem item (table w)\<rparr>"
  obtain img rest where imgs: "imgs = img # rest"
    using assms(8) by (cases imgs) auto
  have up: "fst (uploadImages c req 0 imgs [] ?w1) = None
       \<and> calls (snd (uploadImages c req 0 imgs [] ?w1))
           = calls ?w1 @ map (\<lambda>i. Upload (imageKey req i)) [0..<0 + k + 1]
       \<and> table (snd (uploadImages c req 0 imgs [] ?w1)) = table ?w1
       \<and> outbox (snd (uploadImages c req 0 imgs [] ?w1)) = outbox ?w1"
    using assms(8,9,10) by (intro uploadImages_fails_at) simp_all
  obtain w2 where w2: "uploadImages c req 0 imgs [] ?w1 = (None, w2)"
    using up by (cases "uploadImages c req 0 imgs [] ?w1") auto
  have push: "pushImages c req ?w1 = (Inl ''Failed to submit intake form assets to S3'', w2)"
    using w2 by (simp add: pushImages_def assms(7) imgs)
  have res: "intakeForm c req w = (Msg400 ''Failed to submit intake form assets to S3'', w2)"
    by (simp add: intakeForm_def assms(1-4) persistRecord_ok[OF assms(5,6)] push)
  from up w2 have "calls w2 = calls w @ PutItem item # map (\<lambda>i. Upload (imageKey req i)) [0..<k + 1]"
    and "table w2 = putItem item (table w)" and "outbox w2 = outbox w"
    by simp_all
  with res created_item_images[OF assms(5)] show ?thesis
    by (simp add: putItem_member)
qed

lemma uploadImages_outbox: "outbox (snd (uploadImages c req index imgs urls w)) = outbox w"
  by (induction imgs arbitrary: index urls w) (simp_all add: Let_def)

lemma pushImages_outbox: "outbox (snd (pushImages c req w)) = outbox w"
proof (cases "files req")
  case None
  then show ?thesis by (simp add: pushImages_def)
next
  case (Some imgs)
  show ?thesis
  proof (cases imgs)
    case Nil
    with Some show ?thesis by (simp add: pushImages_def)
  next
    case (Cons img rest)
    obtain r w1 where u: "uploadImages c req 0 (img # rest) [] w = (r, w1)"
      by (cases "uploadImages c req 0 (img # rest) [] w")
    have "outbox w1 = outbox w"
      using uploadImages_outbox[of c req 0 "img # rest" "[]" w] u by simp
    with Some Cons u show ?thesis
      by (cases r) (simp_all add: pushImages_def Let_def)
  qed
qed

lemma persistRecord_outbox: "outbox (snd (persistRecord c req w)) = outbox w"
  by (simp add: persistRecord_def Let_def split: sum.splits)

text \<open>
  C4, amended. When the request passes the three schemas, the record is written and the
  images (if any) are uploaded and recorded, and then the count of the incomplete records
  fails, the failure is caught: the answer is status 200 with an undefined queue number, the
  only further call is the count itself, and no notification is sent.
\<close>

theorem scan_failure_skips_notifications:
  assumes "formIssues c (body req) = None"
    and "parseRepos c (repos (body req)) = Inr parsed"
    and "reposIssues c parsed = None"
    and "filesIssues c (files req) = None"
    and "persistRecord c req w = (True, w1)"
    and "pushImages c req w1 = (Inr urls, w2)"
    and "scanFails c"
  shows "intakeForm c req w =
           (Success200 (body req) None ''Successfully submitted intake form'',
            w2\<lparr>calls := calls w2 @ [Scan]\<rparr>)
       \<and> outbox (snd (intakeForm c req w)) = outbox w"
proof -
  have res: "intakeForm c req w =
           (Success200 (body req) None ''Successfully submitted intake form'',
            w2\<lparr>calls := calls w2 @ [Scan]\<rparr>)"
    by (simp add: intakeForm_def assms countAndNotify_def Let_def)
  have "outbox w1 = outbox w"
    using persistRecord_outbox[of c req w] assms(5) by simp
  moreover have "outbox w2 = outbox w1"
    using pushImages_outbox[of c req w1] assms(6) by simp
  ultimately show ?thesis using res by simp
qed

text \<open>
  C10. \<open>formatRepos\<close> throws a TypeError on the empty list, and the confirmation email is
  rendered exactly when the selected-repository list of the submission is non-empty: on the
  empty list \<open>sendConfirmationEmail\<close> throws that TypeError instead.
\<close>

theorem formatRepos_empty_throws:
  assumes "parseRepos c (repos formData) = Inr selected"
  shows "formatRepos [] = Inl TypeError
       \<and> ((\<exists>mail. sendConfirmationEmail c formData queueNumber = Inr mail) \<longleftrightarrow> selected \<noteq> [])
       \<and> (selected = [] \<longrightarrow> sendConfirmationEmail c formData queueNumber = Inl TypeError)"
  using assms
  by (cases selected) (simp_all add: formatRepos_def sendConfirmationEmail_def)

lemmas intake_defs = intakeForm_def persistRecord_def pushImages_def countAndNotify_def
  createIntakeFormDocForDynamo_def sendConfirmationEmail_def sendInternalConfirmationEmail_def
  formatRepos_def formatLoop.simps secondSegment_def imageKey_def numberToString.simps
  digitChar_def countIncomplete_def js_Boolean_def orEmpty_def repoNamed_def

lemmas intake_ex_defs = exForm_def exCollaborators_def exItem_def emptyWorld_def

text \<open>
  C4 as stated fails: with a failing count the request is answered with status 200 and an
  undefined queue number, but neither message is sent; the same request with a working
  count sends both.
\<close>

theorem scan_failure_counterexample:
  "intakeForm (exCollaborators\<lparr>scanFails := True\<rparr>)
       \<lparr>body = exForm, files = None, unixTime = 17\<rparr> emptyWorld
     = (Success200 exForm None ''Successfully submitted intake form'',
        \<lparr>table = [exItem], bucket = [], outbox = [], calls = [PutItem exItem, Scan]\<rparr>)
   \<and> length (outbox (snd (intakeForm exCollaborators
         \<lparr>body = exForm, files = None, unixTime = 17\<rparr> emptyWorld))) = 2"
  by (simp add: intake_defs intake_ex_defs Let_def)

text \<open>C4, amended, at a request with one image and a failing count.\<close>

theorem scan_failure_skips_notifications_witness:
  "intakeForm (exCollaborators\<lparr>scanFails := True\<rparr>)
       \<lparr>body = exForm, files = Some [''png''], unixTime = 17\<rparr> emptyWorld
     = (Success200 exForm None ''Successfully submitted intake form'',
        \<lparr>table = [exItem\<lparr>images := Some [''intake/17-octo-o@x.io-0'']\<rparr>],
         bucket = [(''17-octo-o@x.io-0'', ''png'')], outbox = [],
         calls = [PutItem exItem, Upload ''17-octo-o@x.io-0'',
                  UpdateItem ''o@x.io-octo'' 17 [''intake/17-octo-o@x.io-0''], Scan]\<rparr>)
   \<and> outbox (snd (intakeForm (exCollaborators\<lparr>scanFails := True\<rparr>)
       \<lparr>body = exForm, files = Some [''png''], unixTime = 17\<rparr> emptyWorld)) = []"
proof -
  let ?c = "exCollaborators\<lparr>scanFails := True\<rparr>"
  let ?req = "\<lparr>body = exForm, files = Some [''png''], unixTime = 17\<rparr>"
  let ?w1 = "\<lparr>table = [exItem], bucket = [], outbox = [], calls = [PutItem exItem]\<rparr>"
  let ?w2 = "\<lparr>table = [exItem\<lparr>images := Some [''intake/17-octo-o@x.io-0'']\<rparr>],
         bucket = [(''17-octo-o@x.io-0'', ''png'')], outbox = [],
         calls = [PutItem exItem, Upload ''17-octo-o@x.io-0'',
                  UpdateItem ''o@x.io-octo'' 17 [''intake/17-octo-o@x.io-0'']]\<rparr>"
  have h1: "formIssues ?c (body ?req) = None" by (simp add: intake_ex_defs)
  have h2: "parseRepos ?c (repos (body ?req)) = Inr [repoNamed ''octo/tool'']"
    by (simp add: intake_ex_defs)
  have h3: "reposIssues ?c [repoNamed ''octo/tool''] = None" by (simp add: intake_ex_defs)
  have h4: "filesIssues ?c (files ?req) = None" by (simp add: intake_ex_defs)
  have h5: "persistRecord ?c ?req emptyWorld = (True, ?w1)"
    by (simp add: intake_defs intake_ex_defs Let_def)
  have h6: "pushImages ?c ?req ?w1 = (Inr [''intake/17-octo-o@x.io-0''], ?w2)"
    by (simp add: intake_defs intake_ex_defs Let_def)
  have h7: "scanFails ?c" by simp
  from scan_failure_skips_notifications[OF h1 h2 h3 h4 h5 h6 h7]
  show ?thesis by (simp add: emptyWorld_def)
qed

text \<open>C7 at four images of which the one at index 2 fails to upload.\<close>

theorem upload_failure_aborts_request_witness:
  "fst (intakeForm exCollaborators
          \<lparr>body = exForm, files = Some [''png0'', ''png1'', ''broken'', ''png3''], unixTime = 17\<rparr>
          emptyWorld) = Msg400 ''Failed to submit intake form assets to S3''
   \<and> calls (snd (intakeForm exCollaborators
          \<lparr>body = exForm, files = Some [''png0'', ''png1'', ''broken'', ''png3''], unixTime = 17\<rparr>
          emptyWorld))
       = [PutItem exItem, Upload ''17-octo-o@x.io-0'', Upload ''17-octo-o@x.io-1'',
          Upload ''17-octo-o@x.io-2'']
   \<and> table (snd (intakeForm exCollaborators
          \<lparr>body = exForm, files = Some [''png0'', ''png1'', ''broken'', ''png3''], unixTime = 17\<rparr>
          emptyWorld)) = [exItem]
   \<and> images exItem = None"
proof -
  let ?req = "\<lparr>body = exForm, files = Some [''png0'', ''png1'', ''broken'', ''png3''],
                unixTime = 17\<rparr>"
  let ?imgs = "[''png0'', ''png1'', ''broken'', ''png3'']"
  have h1: "formIssues exCollaborators (body ?req) = None" by (simp add: intake_ex_defs)
  have h2: "parseRepos exCollaborators (repos (body ?req)) = Inr [repoNamed ''octo/tool'']"
    by (simp add: intake_ex_defs)
  have h3: "reposIssues exCollaborators [repoNamed ''octo/tool''] = None"
    by (simp add: intake_ex_defs)
  have h4: "filesIssues exCollaborators (files ?req) = None" by (simp add: intake_ex_defs)
  have h5: "createIntakeFormDocForDynamo exCollaborators (body ?req) (unixTime ?req) = Inr exItem"
    by (simp add: intake_defs intake_ex_defs)
  have h6: "\<not> putItemFails exCollaborators exItem" by (simp add: intake_ex_defs)
  have h7: "files ?req = Some ?imgs" by simp
  have h8: "(2::nat) < length ?imgs" by simp
  have h9: "\<forall>i<2. \<not> uploadFails exCollaborators (?imgs ! i)
      (intakeFormBucket exCollaborators) (imageKey ?req i)"
    by (simp add: intake_ex_defs less_Suc_eq numeral_2_eq_2)
  have h10: "uploadFails exCollaborators (?imgs ! 2)
      (intakeFormBucket exCollaborators) (imageKey ?req 2)"
    by (simp add: intake_ex_defs)
  have keys: "map (\<lambda>i. Upload (imageKey ?req i)) [0..<2 + 1]
      = [Upload ''17-octo-o@x.io-0'', Upload ''17-octo-o@x.io-1'', Upload ''17-octo-o@x.io-2'']"
    by (simp add: intake_defs intake_ex_defs upt_rec)
  from upload_failure_aborts_request[OF h1 h2 h3 h4 h5 h6 h7 h8 h9 h10, of emptyWorld]
  show ?thesis unfolding keys by (simp add: emptyWorld_def exItem_def)
qed

text \<open>C10 at a submission with no selected repository and at one with a selected repository.\<close>

theorem formatRepos_empty_throws_witness:
  "formatRepos [] = Inl TypeError
   \<and> sendConfirmationEmail exCollaborators (exForm\<lparr>repos := ''[]''\<rparr>) (Some 3) = Inl TypeError
   \<and> (\<exists>mail. sendConfirmationEmail exCollaborators exForm (Some 3) = Inr mail)"
proof -
  have h1: "parseRepos exCollaborators (repos (exForm\<lparr>repos := ''[]''\<rparr>)) = Inr []"
    by (simp add: intake_ex_defs)
  have h2: "parseRepos exCollaborators (repos exForm) = Inr [repoNamed ''octo/tool'']"
    by (simp add: intake_ex_defs)
  from formatRepos_empty_throws[OF h1, of "Some 3"] formatRepos_empty_throws[OF h2, of "Some 3"]
  show ?thesis by simp
qed

end
